theory Spec2Isabelle
  imports Complex_Main "HOL-Library.Word"
begin

unbundle bit_operations_syntax

chapter \<open>The embedding\<close>

section \<open>Strings of the gateway\<close>

text \<open>
  Python strings are sequences of code points. The model uses \<^typ>\<open>string\<close>, reading each
  \<^typ>\<open>char\<close> as a code point in the range 0..255. On that range the regular-expression
  class \<^verbatim>\<open>\d\<close> is exactly the ten ASCII digits, and the characters removed by
  \<^verbatim>\<open>str.strip()\<close> (those for which \<^verbatim>\<open>str.isspace\<close> holds) are the code points
  9..13, 28..32, 133 and 160.
\<close>

definition is_space :: "char \<Rightarrow> bool" where
  "is_space c = ((of_char c :: nat) \<in> set [9, 10, 11, 12, 13, 28, 29, 30, 31, 32, 133, 160])"

definition is_digit :: "char \<Rightarrow> bool" where
  "is_digit c = (c \<in> set ''0123456789'')"

text \<open>\<^verbatim>\<open>s.strip()\<close>: leading and trailing whitespace removed.\<close>

definition strip :: "string \<Rightarrow> string" where
  "strip s = rev (dropWhile is_space (rev (dropWhile is_space s)))"

text \<open>\<^verbatim>\<open>s.startswith(p)\<close>.\<close>

definition startswith :: "string \<Rightarrow> string \<Rightarrow> bool" where
  "startswith s p = (take (length p) s = p)"

section \<open>utils/phone.py\<close>

text \<open>\<^verbatim>\<open>re.sub(r"[^\d+]", "", s)\<close>: every character that is neither a digit nor a plus sign
  is deleted.\<close>

definition keep_digits_plus :: "string \<Rightarrow> string" where
  "keep_digits_plus s = filter (\<lambda>c. is_digit c \<or> c = CHR ''+'') s"

definition normalize_e164 :: "string \<Rightarrow> string" where
  "normalize_e164 phone =
     (let digits = keep_digits_plus (strip phone) in
      if startswith digits ''+'' then digits
      else if length digits = 10 then ''+1'' @ digits
      else if length digits = 11 \<and> startswith digits ''1'' then ''+'' @ digits
      else ''+'' @ digits)"

section \<open>voice/transcript.py\<close>

text \<open>A turn is the dictionary \<^verbatim>\<open>{"role": ..., "content": ...}\<close>.\<close>

record turn =
  role :: string
  content :: string

record transcript_capture =
  tokens :: "string list"
  assistant_text :: "string list"
  turns :: "turn list"

definition TranscriptCapture_init :: transcript_capture where
  "TranscriptCapture_init = \<lparr>tokens = [], assistant_text = [], turns = []\<rparr>"

definition add_token :: "transcript_capture \<Rightarrow> string \<Rightarrow> transcript_capture" where
  "add_token tc text =
     tc\<lparr>tokens := tokens tc @ [text], assistant_text := assistant_text tc @ [text]\<rparr>"

definition end_turn :: "transcript_capture \<Rightarrow> transcript_capture" where
  "end_turn tc =
     (if assistant_text tc \<noteq> [] then
        (let full_text = strip (concat (assistant_text tc));
             tc1 = (if full_text \<noteq> []
                    then tc\<lparr>turns := turns tc @ [\<lparr>role = ''assistant'', content = full_text\<rparr>]\<rparr>
                    else tc)
         in tc1\<lparr>assistant_text := []\<rparr>)
      else tc)"

definition add_user_note :: "transcript_capture \<Rightarrow> string \<Rightarrow> transcript_capture" where
  "add_user_note tc note =
     (if strip note \<noteq> []
      then tc\<lparr>turns := turns tc @ [\<lparr>role = ''user'', content = strip note\<rparr>]\<rparr>
      else tc)"

text \<open>\<^verbatim>\<open>get_transcript\<close> flushes the open assistant turn, so it returns the list of turns
  together with the updated capture.\<close>

definition get_transcript :: "transcript_capture \<Rightarrow> turn list \<times> transcript_capture" where
  "get_transcript tc = (let tc1 = end_turn tc in (turns tc1, tc1))"


text \<open>The three mutating operations of the class, and a run of them from a fresh capture.\<close>

datatype transcript_op = AddToken string | EndTurn | AddUserNote string

fun transcript_step :: "transcript_capture \<Rightarrow> transcript_op \<Rightarrow> transcript_capture" where
  "transcript_step tc (AddToken s) = add_token tc s"
| "transcript_step tc EndTurn = end_turn tc"
| "transcript_step tc (AddUserNote s) = add_user_note tc s"

definition transcript_run :: "transcript_op list \<Rightarrow> transcript_capture" where
  "transcript_run ops = foldl transcript_step TranscriptCapture_init ops"

definition turn_ok :: "turn \<Rightarrow> bool" where
  "turn_ok t = (content t = strip (content t) \<and> content t \<noteq> [])"

section \<open>voice/transcoder.py\<close>

text \<open>
  Byte strings are lists of 8-bit words. A \<^verbatim>\<open>float32\<close> value is modelled by the rational
  number it denotes (every finite float is a dyadic rational); NaN and the infinities are not
  values of the model, and none of the functions below produces them from finite input.
  Where the source computes in \<^verbatim>\<open>float32\<close> and the exact result need not be
  representable, the rounding is written out (\<open>f32_round\<close> below).
\<close>

type_synonym byte = "8 word"
type_synonym pcm = "rat list"

definition TWILIO_RATE :: int where
  "TWILIO_RATE = 8000"

definition PERSONAPLEX_RATE :: int where
  "PERSONAPLEX_RATE = 24000"

definition MULAW_BIAS :: int where
  "MULAW_BIAS = 0x84"

definition MULAW_CLIP :: int where
  "MULAW_CLIP = 32635"

text \<open>
  The body of the loop that fills \<^verbatim>\<open>_MULAW_DECODE_TABLE\<close>, on Python's unbounded
  integers: \<open>mulaw_decode_sample\<close> is the integer \<^verbatim>\<open>_sample\<close> after the sign has been
  applied, \<open>mulaw_decode_entry\<close> the stored quotient \<^verbatim>\<open>_sample / 32768.0\<close>. The quotient
  of an integer below \<open>2\<^sup>2\<^sup>4\<close> in absolute value by a power of two is a \<^verbatim>\<open>float32\<close>
  value, so storing it rounds nothing.
\<close>

definition mulaw_decode_sample :: "int \<Rightarrow> int" where
  "mulaw_decode_sample i =
     (let val = NOT i AND 0xFF;
          sign = val AND 0x80;
          exponent = drop_bit 4 val AND 0x07;
          mantissa = val AND 0x0F;
          sample = push_bit (nat exponent) (push_bit 3 mantissa + MULAW_BIAS);
          sample = sample - MULAW_BIAS
      in if sign \<noteq> 0 then - sample else sample)"

definition mulaw_decode_entry :: "int \<Rightarrow> rat" where
  "mulaw_decode_entry i = of_int (mulaw_decode_sample i) / 32768"

definition MULAW_DECODE_TABLE :: "rat list" where
  "MULAW_DECODE_TABLE = map (\<lambda>i. mulaw_decode_entry (int i)) [0..<256]"

text \<open>\<^verbatim>\<open>np.frombuffer(data, dtype=np.uint8)\<close> reads each byte as an index 0..255, so the
  gather never leaves the table.\<close>

definition mulaw_to_pcm :: "byte list \<Rightarrow> pcm" where
  "mulaw_to_pcm data = map (\<lambda>b. MULAW_DECODE_TABLE ! unat b) data"

text \<open>The \<^verbatim>\<open>for e in range(7, 0, -1)\<close> loop of \<^verbatim>\<open>_encode_mulaw_sample\<close> with its
  \<^verbatim>\<open>break\<close>; the empty list is the \<^verbatim>\<open>else\<close> branch of the loop.\<close>

fun exponent_search :: "int \<Rightarrow> int \<Rightarrow> nat list \<Rightarrow> nat" where
  "exponent_search sample msk [] = 0"
| "exponent_search sample msk (e # es) =
     (if sample AND msk \<noteq> 0 then e else exponent_search sample (drop_bit 1 msk) es)"

definition encode_mulaw_sample :: "int \<Rightarrow> int" where
  "encode_mulaw_sample sample0 =
     (let sign = (if sample0 < 0 then 0x80 else 0);
          sample = (if sample0 < 0 then - sample0 else sample0);
          sample = (if sample > MULAW_CLIP then MULAW_CLIP else sample);
          sample = sample + MULAW_BIAS;
          exponent = exponent_search sample 0x4000 [7, 6, 5, 4, 3, 2, 1];
          mantissa = drop_bit (exponent + 3) sample AND 0x0F
      in NOT (sign OR push_bit 4 (int exponent) OR mantissa) AND 0xFF)"

definition MULAW_ENCODE_TABLE :: "int list" where
  "MULAW_ENCODE_TABLE =
     map (\<lambda>u. encode_mulaw_sample (if u < 32768 then u else u - 65536)) (map int [0..<65536])"

subsection \<open>Single-precision arithmetic\<close>

text \<open>
  \<open>f32_round\<close> rounds a rational to the nearest \<^verbatim>\<open>float32\<close> value, ties to even: a
  24-bit significand, the spacing of the subnormal numbers below \<open>2\<^sup>-\<^sup>1\<^sup>2\<^sup>6\<close>. \<open>binade k x\<close>
  is the exponent \<open>e\<close> with \<open>2\<^sup>e \<le> x < 2\<^sup>e\<^sup>+\<^sup>1\<close>, found in at most \<open>k\<close> halvings or
  doublings; 300 of them cover the whole range of the format. Overflow to infinity is not
  modelled: the only product rounded below is at most 32767 in absolute value.
\<close>

definition round_half_even :: "rat \<Rightarrow> int" where
  "round_half_even r =
     (let n = \<lfloor>r\<rfloor>; d = r - of_int n in
      if d < 1/2 then n else if d > 1/2 then n + 1 else if even n then n else n + 1)"

fun binade :: "nat \<Rightarrow> rat \<Rightarrow> int" where
  "binade 0 x = 0"
| "binade (Suc k) x =
     (if 2 \<le> x then binade k (x / 2) + 1 else if x < 1 then binade k (x * 2) - 1 else 0)"

definition f32_round :: "rat \<Rightarrow> rat" where
  "f32_round x =
     (if x = 0 then 0
      else (let e = max (binade 300 \<bar>x\<bar>) (- 126); q = 2 powi (e - 23)
            in of_int (round_half_even (x / q)) * q))"

text \<open>\<^verbatim>\<open>astype(np.int16)\<close> on a value inside the range of \<^verbatim>\<open>int16\<close>: truncation towards
  zero.\<close>

definition trunc_int :: "rat \<Rightarrow> int" where
  "trunc_int x = (if x < 0 then - \<lfloor>- x\<rfloor> else \<lfloor>x\<rfloor>)"

text \<open>\<^verbatim>\<open>np.clip(x, lo, hi)\<close>.\<close>

definition clip :: "rat \<Rightarrow> rat \<Rightarrow> rat \<Rightarrow> rat" where
  "clip x lo hi = min (max x lo) hi"

text \<open>
  One element of \<^verbatim>\<open>pcm_to_mulaw\<close>: clip, scale by 32767 in \<^verbatim>\<open>float32\<close>, cast to
  \<^verbatim>\<open>int16\<close>, view as \<^verbatim>\<open>uint16\<close>, gather from the encode table, store as a byte.
\<close>

definition pcm_to_mulaw_sample :: "rat \<Rightarrow> byte" where
  "pcm_to_mulaw_sample x =
     (let pcm_clipped = clip x (- 1) 1;
          int16_data = trunc_int (f32_round (pcm_clipped * 32767));
          uint16_view = int16_data mod 65536
      in word_of_int (MULAW_ENCODE_TABLE ! nat uint16_view))"

definition pcm_to_mulaw :: "pcm \<Rightarrow> byte list" where
  "pcm_to_mulaw p = map pcm_to_mulaw_sample p"

text \<open>
  \<^verbatim>\<open>resample\<close>. The resampler of the \<^verbatim>\<open>soxr\<close> library is not part of the repository and
  is a parameter; the array is of any type, since the function does not look at it.
\<close>

definition resample :: "('a \<Rightarrow> int \<Rightarrow> int \<Rightarrow> 'a) \<Rightarrow> 'a \<Rightarrow> int \<Rightarrow> int \<Rightarrow> 'a" where
  "resample soxr_resample p from_rate to_rate =
     (if from_rate = to_rate then p else soxr_resample p from_rate to_rate)"

definition mulaw_8k_to_pcm_24k :: "(pcm \<Rightarrow> int \<Rightarrow> int \<Rightarrow> pcm) \<Rightarrow> byte list \<Rightarrow> pcm" where
  "mulaw_8k_to_pcm_24k soxr_resample data =
     (let pcm_8k = mulaw_to_pcm data
      in resample soxr_resample pcm_8k TWILIO_RATE PERSONAPLEX_RATE)"

definition pcm_24k_to_mulaw_8k :: "(pcm \<Rightarrow> int \<Rightarrow> int \<Rightarrow> pcm) \<Rightarrow> pcm \<Rightarrow> byte list" where
  "pcm_24k_to_mulaw_8k soxr_resample pcm_24k =
     (let pcm_8k = resample soxr_resample pcm_24k PERSONAPLEX_RATE TWILIO_RATE
      in pcm_to_mulaw pcm_8k)"

subsection \<open>The decoding rule of the specification\<close>

text \<open>
  The specification's words for the \<open>\<mu>\<close>-law decoder, written in arithmetic on the value of the
  byte: invert the byte; the sign is bit 7, the exponent bits 6 to 4, the mantissa bits 3 to 0;
  the sample is \<open>((mantissa << 3) + 0x84) << exponent - 0x84\<close>; apply the sign; divide by
  32768.
\<close>

definition g711_decode :: "byte \<Rightarrow> rat" where
  "g711_decode b =
     (let v = 255 - unat b;
          sign = (v div 128 = 1);
          exponent = (v div 16) mod 8;
          mantissa = v mod 16;
          sample = (int mantissa * 8 + 132) * 2 ^ exponent - 132
      in (if sign then - of_int sample else of_int sample) / 32768)"

text \<open>What is checked for each of the 256 table indices: the bit-level loop body agrees with
  the arithmetic rule, the sample is at most 32124 in absolute value, and re-encoding the
  16-bit sample one step nearer to zero gives a byte that decodes to the same sample.\<close>

definition decode_entry_ok :: "nat \<Rightarrow> bool" where
  "decode_entry_ok n =
     (let s = mulaw_decode_sample (int n);
          v = 255 - n;
          spec = (int (v mod 16) * 8 + 132) * 2 ^ ((v div 16) mod 8) - 132
      in s = (if v div 128 = 1 then - spec else spec) \<and> \<bar>s\<bar> \<le> 32124)"

definition entry_roundtrip :: "nat \<Rightarrow> bool" where
  "entry_roundtrip n =
     (let s = mulaw_decode_sample (int n);
          b = encode_mulaw_sample (s - sgn s)
      in 0 \<le> b \<and> b < 256 \<and> mulaw_decode_sample b = s)"


section \<open>voice/bridge.py\<close>

subsection \<open>JSON values, WebSocket messages, errors\<close>

text \<open>
  A value produced by \<^verbatim>\<open>json.loads\<close>. \<open>JNull\<close> is Python's \<^verbatim>\<open>None\<close>. An object is the
  association list of a \<^verbatim>\<open>dict\<close>; its keys are distinct, since \<^verbatim>\<open>json.loads\<close> keeps
  one value for each key.
\<close>

datatype json =
    JNull
  | JBool bool
  | JNum rat
  | JStr string
  | JArr "json list"
  | JObj "(string \<times> json) list"

text \<open>The exceptions that the modelled code can raise.\<close>

datatype error =
    JSONDecodeError
  | AttributeError
  | KeyError
  | TypeError
  | Base64Error
  | IndexError
  | ConnectError

text \<open>
  The characters of a text frame reach the bridge only through \<^verbatim>\<open>json.loads\<close>, which is
  not part of the repository. A text frame is therefore represented by what
  \<^verbatim>\<open>json.loads\<close> does with it: it raises, or it returns a value.
\<close>

datatype text_data = Malformed | Parsed json

fun json_loads :: "text_data \<Rightarrow> error + json" where
  "json_loads Malformed = Inl JSONDecodeError"
| "json_loads (Parsed v) = Inr v"

text \<open>\<^verbatim>\<open>aiohttp.WSMsgType\<close>, and a received message: a text frame, a binary frame, or one of
  the other kinds, which carry nothing the bridge reads.\<close>

datatype ctl_type = CONTINUATION | PING | PONG | CLOSE | CLOSING | CLOSED | ERROR

datatype ws_message = WSText text_data | WSBinary "byte list" | WSCtl ctl_type

text \<open>\<^verbatim>\<open>d.get(k)\<close>, \<^verbatim>\<open>d.get(k, default)\<close> and \<^verbatim>\<open>d[k]\<close> on a \<^verbatim>\<open>dict\<close>.\<close>

definition dict_get :: "(string \<times> json) list \<Rightarrow> string \<Rightarrow> json" where
  "dict_get kv k = (case map_of kv k of None \<Rightarrow> JNull | Some v \<Rightarrow> v)"

definition dict_get_default :: "(string \<times> json) list \<Rightarrow> string \<Rightarrow> json \<Rightarrow> json" where
  "dict_get_default kv k d = (case map_of kv k of None \<Rightarrow> d | Some v \<Rightarrow> v)"

definition dict_index :: "(string \<times> json) list \<Rightarrow> string \<Rightarrow> error + json" where
  "dict_index kv k = (case map_of kv k of None \<Rightarrow> Inl KeyError | Some v \<Rightarrow> Inr v)"

text \<open>\<^verbatim>\<open>v.get(k)\<close> and \<^verbatim>\<open>v[k]\<close> with a string key on an arbitrary parsed value: only a
  \<^verbatim>\<open>dict\<close> has \<^verbatim>\<open>get\<close>, and only a \<^verbatim>\<open>dict\<close> can be subscripted by a string.\<close>

fun json_get :: "json \<Rightarrow> string \<Rightarrow> error + json" where
  "json_get (JObj kv) k = Inr (dict_get kv k)"
| "json_get _ k = Inl AttributeError"

fun json_index :: "json \<Rightarrow> string \<Rightarrow> error + json" where
  "json_index (JObj kv) k = dict_index kv k"
| "json_index _ k = Inl TypeError"

subsection \<open>External libraries\<close>

text \<open>
  The functions of libraries outside the repository that the bridge calls. \<open>b64decode\<close>
  returns \<open>None\<close> where \<^verbatim>\<open>base64.b64decode\<close> raises; \<open>opus_encode_lib\<close> returns the
  integer result of \<^verbatim>\<open>opus_encode\<close> and the contents of the output buffer;
  \<open>opus_decode_lib\<close> returns \<open>None\<close> for a negative result of \<^verbatim>\<open>opus_decode\<close> and the
  decoded 16-bit samples otherwise; \<open>utf8_decode\<close> is \<^verbatim>\<open>decode("utf-8", errors="replace")\<close>.
  The coder state that the Opus library keeps between calls is not modelled.
\<close>

record libs =
  b64decode :: "string \<Rightarrow> byte list option"
  b64encode :: "byte list \<Rightarrow> string"
  soxr_resample :: "pcm \<Rightarrow> int \<Rightarrow> int \<Rightarrow> pcm"
  opus_encode_lib :: "int list \<Rightarrow> int \<times> byte list"
  opus_decode_lib :: "byte list \<Rightarrow> int list option"
  utf8_decode :: "byte list \<Rightarrow> string"

text \<open>A stand-in for the libraries, used to close the examples: base64 handles the empty
  string only, every Opus call fails, and text is read byte by byte.\<close>

definition failing_libs :: libs where
  "failing_libs =
     \<lparr>b64decode = (\<lambda>s. if s = [] then Some [] else None), b64encode = (\<lambda>bs. []),
      soxr_resample = (\<lambda>p f t. p),
      opus_encode_lib = (\<lambda>frame. (- 1, [])), opus_decode_lib = (\<lambda>packet. None),
      utf8_decode = map (\<lambda>b. char_of (unat b))\<rparr>"


subsection \<open>The bridge object\<close>

definition PP_SAMPLE_RATE :: nat where
  "PP_SAMPLE_RATE = 24000"

definition OPUS_FRAME_MS :: nat where
  "OPUS_FRAME_MS = 20"

definition OPUS_FRAME_SAMPLES :: nat where
  "OPUS_FRAME_SAMPLES = PP_SAMPLE_RATE * OPUS_FRAME_MS div 1000"

text \<open>A WebSocket as the bridge sees it: whether it is closed, and what has been sent on it.\<close>

record 'm websocket =
  ws_closed :: bool
  ws_sent :: "'m list"

text \<open>
  The fields of \<^verbatim>\<open>VoiceBridge\<close>. \<open>stream_sid\<close> holds whatever value the envelope gave,
  \<open>JNull\<close> for \<^verbatim>\<open>None\<close>. The envelopes sent to the carrier are kept as the dictionaries
  handed to \<^verbatim>\<open>json.dumps\<close>. \<open>db_messages\<close> records the calls of \<^verbatim>\<open>add_message\<close>
  (role and content), \<open>logged\<close> the names of the log records, \<open>extraction_scheduled\<close> the
  task created at the end of \<^verbatim>\<open>_on_disconnect\<close>.
\<close>

record bridge =
  twilio_ws :: "json websocket option"
  pp_ws :: "byte list websocket option"
  session_closed :: bool
  transcript :: transcript_capture
  close_flag :: bool
  stream_sid :: json
  conversation_id :: "nat option"
  user_id :: "nat option"
  pcm_buffer :: pcm
  db_messages :: "(string \<times> string) list"
  logged :: "string list"
  extraction_scheduled :: bool

definition VoiceBridge_init :: bridge where
  "VoiceBridge_init =
     \<lparr>twilio_ws = None, pp_ws = None, session_closed = False,
      transcript = TranscriptCapture_init, close_flag = False, stream_sid = JNull,
      conversation_id = None, user_id = None, pcm_buffer = [],
      db_messages = [], logged = [], extraction_scheduled = False\<rparr>"

definition log_record :: "string \<Rightarrow> bridge \<Rightarrow> bridge" where
  "log_record name st = st\<lparr>logged := logged st @ [name]\<rparr>"

text \<open>A loop body either lets the loop go on (\<open>None\<close>) or ends the pump, by \<^verbatim>\<open>return\<close> or
  by an exception that nothing in the pump catches.\<close>

datatype pump_exit = Returned | Raised error

subsection \<open>Carrier to AI\<close>

text \<open>\<^verbatim>\<open>_opus_encode\<close>: clip, scale and cast to 16 bits, call the library, and return nothing
  for a negative result.\<close>

definition opus_encode :: "libs \<Rightarrow> pcm \<Rightarrow> byte list option" where
  "opus_encode L pcm_frame =
     (let int16_data = map (\<lambda>x. trunc_int (f32_round (clip x (- 1) 1 * 32767))) pcm_frame;
          (n, out_buf) = opus_encode_lib L int16_data
      in if n < 0 then None else Some (take (nat n) out_buf))"

text \<open>
  The \<^verbatim>\<open>while\<close> loop of \<^verbatim>\<open>_send_pcm_to_personaplex\<close> on the buffer and on the list of
  binary messages sent so far. \<^verbatim>\<open>if opus_bytes:\<close> skips both \<^verbatim>\<open>None\<close> and an empty
  packet.
\<close>

function drain_frames :: "libs \<Rightarrow> pcm \<Rightarrow> byte list list \<Rightarrow> pcm \<times> byte list list" where
  "drain_frames L buf out =
     (if OPUS_FRAME_SAMPLES \<le> length buf then
        (let frame = take OPUS_FRAME_SAMPLES buf;
             rest = drop OPUS_FRAME_SAMPLES buf
         in drain_frames L rest
              (case opus_encode L frame of
                 None \<Rightarrow> out
               | Some opus_bytes \<Rightarrow> if opus_bytes \<noteq> [] then out @ [0x01 # opus_bytes] else out))
      else (buf, out))"
  by pat_completeness auto
termination
  by (relation "measure (\<lambda>(L, buf, out). length buf)")
     (auto simp: OPUS_FRAME_SAMPLES_def PP_SAMPLE_RATE_def OPUS_FRAME_MS_def)

declare drain_frames.simps [simp del]

definition send_pcm_to_personaplex :: "libs \<Rightarrow> bridge \<Rightarrow> pcm \<Rightarrow> bridge" where
  "send_pcm_to_personaplex L st pcm_24k =
     (case pp_ws st of
        None \<Rightarrow> st
      | Some w \<Rightarrow>
          if ws_closed w then st
          else (let (buf, out) = drain_frames L (pcm_buffer st @ pcm_24k) (ws_sent w)
                in st\<lparr>pcm_buffer := buf, pp_ws := Some (w\<lparr>ws_sent := out\<rparr>)\<rparr>))"

text \<open>\<^verbatim>\<open>base64.b64decode\<close> on the value found under \<^verbatim>\<open>payload\<close>: only a string can be
  decoded.\<close>

fun b64decode_value :: "libs \<Rightarrow> json \<Rightarrow> error + byte list" where
  "b64decode_value L (JStr s) = (case b64decode L s of None \<Rightarrow> Inl Base64Error | Some bs \<Rightarrow> Inr bs)"
| "b64decode_value L _ = Inl TypeError"

text \<open>The \<^verbatim>\<open>media\<close> branch.\<close>

definition on_media :: "libs \<Rightarrow> bridge \<Rightarrow> (string \<times> json) list \<Rightarrow> pump_exit option \<times> bridge" where
  "on_media L st data =
     (case dict_index data ''media'' of
        Inl e \<Rightarrow> (Some (Raised e), st)
      | Inr media \<Rightarrow>
          (case json_index media ''payload'' of
             Inl e \<Rightarrow> (Some (Raised e), st)
           | Inr payload_b64 \<Rightarrow>
               (case b64decode_value L payload_b64 of
                  Inl e \<Rightarrow> (Some (Raised e), st)
                | Inr mulaw_bytes \<Rightarrow>
                    (let pcm_24k = mulaw_8k_to_pcm_24k (soxr_resample L) mulaw_bytes
                     in (None, send_pcm_to_personaplex L st pcm_24k)))))"

text \<open>The \<^verbatim>\<open>start\<close> branch: \<^verbatim>\<open>data.get("start", {}).get("streamSid")\<close>.\<close>

definition on_start :: "bridge \<Rightarrow> (string \<times> json) list \<Rightarrow> pump_exit option \<times> bridge" where
  "on_start st data =
     (case json_get (dict_get_default data ''start'' (JObj [])) ''streamSid'' of
        Inl e \<Rightarrow> (Some (Raised e), st)
      | Inr sid \<Rightarrow> (None, log_record ''twilio_stream_started'' (st\<lparr>stream_sid := sid\<rparr>)))"

text \<open>One pass through the body of the loop of \<^verbatim>\<open>_twilio_to_personaplex\<close>.\<close>

definition twilio_frame :: "libs \<Rightarrow> bridge \<Rightarrow> ws_message \<Rightarrow> pump_exit option \<times> bridge" where
  "twilio_frame L st msg =
     (if close_flag st then (Some Returned, st)
      else case msg of
        WSText text \<Rightarrow>
          (case json_loads text of
             Inl e \<Rightarrow> (Some (Raised e), st)
           | Inr (JObj data) \<Rightarrow>
               (let event = dict_get data ''event'' in
                if event = JStr ''media'' then on_media L st data
                else if event = JStr ''start'' then on_start st data
                else if event = JStr ''stop''
                  then (Some Returned, log_record ''twilio_stream_stopped'' st)
                else (None, st))
           | Inr _ \<Rightarrow> (Some (Raised AttributeError), st))
      | WSBinary _ \<Rightarrow> (None, st)
      | WSCtl t \<Rightarrow> if t \<in> {CLOSE, CLOSED, ERROR} then (Some Returned, st) else (None, st))"

text \<open>The pump on the messages that its socket delivers; the end of the list is the end of the
  iteration.\<close>

fun twilio_to_personaplex :: "libs \<Rightarrow> bridge \<Rightarrow> ws_message list \<Rightarrow> pump_exit \<times> bridge" where
  "twilio_to_personaplex L st [] = (Returned, st)"
| "twilio_to_personaplex L st (msg # msgs) =
     (case twilio_frame L st msg of
        (None, st') \<Rightarrow> twilio_to_personaplex L st' msgs
      | (Some r, st') \<Rightarrow> (r, st'))"

subsection \<open>AI to carrier\<close>

text \<open>\<^verbatim>\<open>_opus_decode\<close>.\<close>

definition opus_decode :: "libs \<Rightarrow> byte list \<Rightarrow> pcm option" where
  "opus_decode L opus_data =
     (case opus_decode_lib L opus_data of
        None \<Rightarrow> None
      | Some pcm_int16 \<Rightarrow> Some (map (\<lambda>v. of_int v / 32768) pcm_int16))"

text \<open>The dictionary built by \<^verbatim>\<open>_send_mulaw_to_twilio\<close>.\<close>

definition media_envelope :: "json \<Rightarrow> string \<Rightarrow> json" where
  "media_envelope sid payload_b64 =
     JObj [(''event'', JStr ''media''), (''streamSid'', sid),
           (''media'', JObj [(''payload'', JStr payload_b64)])]"

definition send_mulaw_to_twilio :: "libs \<Rightarrow> bridge \<Rightarrow> byte list \<Rightarrow> bridge" where
  "send_mulaw_to_twilio L st mulaw_bytes =
     (case twilio_ws st of
        None \<Rightarrow> st
      | Some w \<Rightarrow>
          if ws_closed w then st
          else (let payload_b64 = b64encode L mulaw_bytes;
                    message = media_envelope (stream_sid st) payload_b64
                in st\<lparr>twilio_ws := Some (w\<lparr>ws_sent := ws_sent w @ [message]\<rparr>)\<rparr>))"

text \<open>One pass through the body of the loop of \<^verbatim>\<open>_personaplex_to_twilio\<close>.\<close>

definition personaplex_frame :: "libs \<Rightarrow> bridge \<Rightarrow> ws_message \<Rightarrow> pump_exit option \<times> bridge" where
  "personaplex_frame L st msg =
     (if close_flag st then (Some Returned, st)
      else case msg of
        WSBinary data \<Rightarrow>
          (case data of
             [] \<Rightarrow> (None, st)
           | kind # payload \<Rightarrow>
               if kind = 0x01 then
                 (case opus_decode L payload of
                    None \<Rightarrow> (None, st)
                  | Some pcm_24k \<Rightarrow>
                      (let mulaw_8k = pcm_24k_to_mulaw_8k (soxr_resample L) pcm_24k
                       in (None, send_mulaw_to_twilio L st mulaw_8k)))
               else if kind = 0x02 then
                 (let text = utf8_decode L payload
                  in (None, st\<lparr>transcript := add_token (transcript st) text\<rparr>))
               else (None, st))
      | WSText _ \<Rightarrow> (None, st)
      | WSCtl t \<Rightarrow> if t \<in> {CLOSE, CLOSED, ERROR} then (Some Returned, st) else (None, st))"

fun personaplex_to_twilio :: "libs \<Rightarrow> bridge \<Rightarrow> ws_message list \<Rightarrow> pump_exit \<times> bridge" where
  "personaplex_to_twilio L st [] = (Returned, st)"
| "personaplex_to_twilio L st (msg # msgs) =
     (case personaplex_frame L st msg of
        (None, st') \<Rightarrow> personaplex_to_twilio L st' msgs
      | (Some r, st') \<Rightarrow> (r, st'))"

subsection \<open>The session\<close>

text \<open>
  The two pumps run as tasks on one event loop. Between two messages a pump reads and writes
  only its own socket and its own fields, except for \<open>stream_sid\<close>, which the carrier pump
  writes in one step and the AI pump reads in the step that builds the envelope. A run of both
  pumps is therefore the list of the messages in the order in which they are handled, each
  tagged with its socket. \<^verbatim>\<open>asyncio.wait\<close> returns when the first pump ends; the other is
  cancelled, so no later message is handled. The end of the list is the end of the iteration
  of a socket.
\<close>

datatype event = FromCarrier ws_message | FromAI ws_message








subsection \<open>Shapes of messages and observations\<close>


definition start_envelope :: "json \<Rightarrow> ws_message" where
  "start_envelope sid =
     WSText (Parsed (JObj [(''event'', JStr ''start''), (''start'', JObj [(''streamSid'', sid)])]))"

definition inbound_media :: "string \<Rightarrow> ws_message" where
  "inbound_media payload_b64 =
     WSText (Parsed (JObj [(''event'', JStr ''media''),
                           (''media'', JObj [(''payload'', JStr payload_b64)])]))"




chapter \<open>Properties\<close>

section \<open>Facts about strings\<close>

lemma is_space_not_kept: "is_space c \<Longrightarrow> \<not> (is_digit c \<or> c = CHR ''+'')"
  by (auto simp: is_space_def is_digit_def)

lemma dropWhile_noop: "(\<And>x. x \<in> set xs \<Longrightarrow> \<not> P x) \<Longrightarrow> dropWhile P xs = xs"
  by (cases xs) auto

lemma strip_no_space: "(\<And>c. c \<in> set s \<Longrightarrow> \<not> is_space c) \<Longrightarrow> strip s = s"
proof -
  assume ns: "\<And>c. c \<in> set s \<Longrightarrow> \<not> is_space c"
  have "dropWhile is_space s = s"
    using ns by (rule dropWhile_noop)
  moreover have "dropWhile is_space (rev s) = rev s"
    using ns by (intro dropWhile_noop) simp
  ultimately show ?thesis
    by (simp add: strip_def)
qed

lemma last_dropWhile_keep: "dropWhile P xs \<noteq> [] \<Longrightarrow> last (dropWhile P xs) = last xs"
  by (induction xs) (auto split: if_splits)

lemma dropWhile_rev_dropWhile:
  "dropWhile P (rev (dropWhile P (rev (dropWhile P s)))) = rev (dropWhile P (rev (dropWhile P s)))"
proof -
  let ?a = "dropWhile P s"
  let ?b = "dropWhile P (rev ?a)"
  show "dropWhile P (rev ?b) = rev ?b"
  proof (cases "?b = []")
    case True
    show ?thesis unfolding True by simp
  next
    case False
    then have a: "?a \<noteq> []"
      by (metis dropWhile.simps(1) rev.simps(1))
    have "hd (rev ?b) = last ?b"
      using False by (simp add: hd_rev)
    also have "\<dots> = last (rev ?a)"
      using False by (rule last_dropWhile_keep)
    also have "\<dots> = hd ?a"
      using a by (simp add: last_rev)
    finally have "\<not> P (hd (rev ?b))"
      using a by (simp add: hd_dropWhile)
    then show ?thesis
      by (simp add: dropWhile_eq_self_iff)
  qed
qed

lemma strip_idem: "strip (strip s) = strip s"
  by (simp add: strip_def dropWhile_rev_dropWhile)

section \<open>Single-precision rounding\<close>

lemma round_half_even_error: "\<bar>of_int (round_half_even r) - r\<bar> \<le> 1 / 2"
proof -
  have "of_int \<lfloor>r\<rfloor> \<le> r" "r < of_int \<lfloor>r\<rfloor> + 1"
    by linarith+
  then show ?thesis
    by (auto simp: round_half_even_def Let_def)
qed

lemma binade_nonneg: "1 \<le> x \<Longrightarrow> 0 \<le> binade k x"
  by (induction k arbitrary: x) auto

lemma binade_ge_minus_one: "1 / 2 \<le> x \<Longrightarrow> - 1 \<le> binade k x"
proof (cases k)
  case 0
  then show ?thesis by simp
next
  case (Suc j)
  assume x: "1 / 2 \<le> x"
  have "0 \<le> binade j (x / 2)" if "2 \<le> x"
    using that by (intro binade_nonneg) simp
  moreover have "0 \<le> binade j (x * 2)" if "x < 1"
    using x by (intro binade_nonneg) simp
  ultimately show ?thesis
    using Suc by auto
qed

lemma binade_lower:
  "0 < x \<Longrightarrow> 2 powi (- int k) \<le> x \<Longrightarrow> 2 powi (binade k x) \<le> x"
proof (induction k arbitrary: x)
  case 0
  then show ?case by simp
next
  case (Suc k)
  have le1: "(2::rat) powi (- int k) \<le> 1"
    by (simp add: power_int_minus inverse_le_1_iff)
  show ?case
  proof (cases "2 \<le> x")
    case True
    then have "2 powi (binade k (x / 2)) \<le> x / 2"
      using le1 by (intro Suc.IH) auto
    then show ?thesis
      using True by (simp add: power_int_add)
  next
    case False
    show ?thesis
    proof (cases "x < 1")
      case True
      have half: "(2::rat) powi (- int k - 1) = 2 powi (- int k) / 2"
        by (simp add: power_int_diff)
      have "- int (Suc k) = - int k - 1"
        by simp
      then have "(2::rat) powi (- int (Suc k)) = 2 powi (- int k) / 2"
        by (simp only: half)
      then have "2 powi (- int k) \<le> x * 2"
        using Suc.prems by simp
      then have "2 powi (binade k (x * 2)) \<le> x * 2"
        using Suc.prems by (intro Suc.IH) auto
      then show ?thesis
        using True False by (simp add: power_int_diff)
    next
      case False
      then show ?thesis using \<open>\<not> 2 \<le> x\<close> by simp
    qed
  qed
qed

lemma f32_round_error:
  assumes "1 / 2 \<le> \<bar>x\<bar>"
  shows "\<bar>f32_round x - x\<bar> \<le> \<bar>x\<bar> / 2 ^ 24"
proof -
  define e where "e = binade 300 \<bar>x\<bar>"
  define q :: rat where "q = 2 powi (e - 23)"
  have e: "- 1 \<le> e"
    unfolding e_def using assms by (rule binade_ge_minus_one)
  have "(2::rat) powi (- int 300) \<le> 1 / 2"
    by (simp add: power_int_minus)
  then have "2 powi e \<le> \<bar>x\<bar>"
    unfolding e_def using assms by (intro binade_lower) auto
  moreover have q_eq: "q = 2 powi e / 2 ^ 23"
    by (simp add: q_def power_int_diff)
  ultimately have q_le: "q \<le> \<bar>x\<bar> / 2 ^ 23"
    by (simp add: divide_right_mono)
  have q_pos: "0 < q"
    by (simp add: q_def)
  have x0: "x \<noteq> 0"
    using assms by auto
  have f: "f32_round x = of_int (round_half_even (x / q)) * q"
    using x0 e by (simp add: f32_round_def Let_def e_def q_def max_def)
  have "f32_round x - x = (of_int (round_half_even (x / q)) - x / q) * q"
    using q_pos by (simp add: f field_simps)
  then have "\<bar>f32_round x - x\<bar> = \<bar>of_int (round_half_even (x / q)) - x / q\<bar> * q"
    using q_pos by (simp add: abs_mult)
  also have "\<dots> \<le> (1 / 2) * q"
    using q_pos round_half_even_error [of "x / q"] by (intro mult_right_mono) auto
  also have "\<dots> \<le> \<bar>x\<bar> / 2 ^ 24"
    using q_le by simp
  finally show ?thesis .
qed

lemma scale_trunc:
  assumes "1 \<le> \<bar>s\<bar>" and "\<bar>s\<bar> \<le> 32124"
  shows "trunc_int (f32_round (of_int s / 32768 * 32767)) = s - sgn s"
proof -
  define r :: rat where "r = of_int s"
  define y where "y = r / 32768 * 32767"
  define f where "f = f32_round y"
  have "rat_of_int 1 \<le> of_int \<bar>s\<bar>" "rat_of_int \<bar>s\<bar> \<le> of_int 32124"
    using assms by (simp_all only: of_int_le_iff)
  then have r: "1 \<le> \<bar>r\<bar>" "\<bar>r\<bar> \<le> 32124"
    by (simp_all add: r_def)
  have "1 / 2 \<le> \<bar>y\<bar>"
    using r by (simp add: y_def)
  then have "\<bar>f - y\<bar> \<le> \<bar>y\<bar> / 2 ^ 24"
    unfolding f_def by (rule f32_round_error)
  then have err: "\<bar>f - y\<bar> \<le> \<bar>y\<bar> / 16777216"
    by simp
  have lo: "\<bar>y\<bar> - \<bar>y\<bar> / 16777216 = \<bar>r\<bar> * (549739003905 / 549755813888)"
    and hi: "\<bar>y\<bar> + \<bar>y\<bar> / 16777216 = \<bar>r\<bar> * (549739069439 / 549755813888)"
    by (simp_all add: y_def abs_mult)
  have lo_r: "\<bar>r\<bar> - 1 < \<bar>r\<bar> * (549739003905 / 549755813888)"
    using r by simp
  have hi_r: "\<bar>r\<bar> * (549739069439 / 549755813888) < \<bar>r\<bar>"
    using r by simp
  show ?thesis
  proof (cases "0 < s")
    case True
    then have rp: "0 < r" by (simp add: r_def)
    then have "\<bar>y\<bar> = y" "\<bar>r\<bar> = r"
      by (simp_all add: y_def)
    then have "r - 1 < f" and "f < r"
      using err lo hi lo_r hi_r by linarith+
    then have "\<lfloor>f\<rfloor> = s - 1" "0 \<le> f"
      using r rp by (simp_all add: floor_unique r_def)
    then show ?thesis
      using True by (simp add: trunc_int_def f_def y_def r_def)
  next
    case False
    then have sn: "s < 0" using assms by auto
    then have rn: "r < 0" by (simp add: r_def)
    then have "\<bar>y\<bar> = - y" "\<bar>r\<bar> = - r"
      by (simp_all add: y_def)
    then have "- r - 1 < - f" and "- f < - r"
      using err lo hi lo_r hi_r by linarith+
    moreover have "r \<le> - 1"
      using sn by (simp add: r_def of_int_le_iff [of s "- 1", where 'a = rat, simplified])
    ultimately have "\<lfloor>- f\<rfloor> = - s - 1" "f < 0"
      by (simp_all add: floor_unique r_def)
    then show ?thesis
      using sn by (simp add: trunc_int_def f_def y_def r_def)
  qed
qed

section \<open>The \<open>\<mu>\<close>-law codec\<close>

lemma decode_entries_ok: "list_all decode_entry_ok [0..<256]"
  by code_simp

lemma entries_roundtrip: "list_all entry_roundtrip [0..<256]"
  by code_simp

lemma decode_entry_ok_byte: "decode_entry_ok (unat (b :: byte))"
proof -
  have "unat b < 256"
    using unsigned_less [of b] by simp
  then show ?thesis
    using decode_entries_ok by (simp add: list_all_iff)
qed

lemma entry_roundtrip_byte: "entry_roundtrip (unat (b :: byte))"
proof -
  have "unat b < 256"
    using unsigned_less [of b] by simp
  then show ?thesis
    using entries_roundtrip by (simp add: list_all_iff)
qed

lemma map_upt_nth: "n < k \<Longrightarrow> map f [0..<k] ! n = f n"
  by simp

lemma decode_table_nth: "n < 256 \<Longrightarrow> MULAW_DECODE_TABLE ! n = mulaw_decode_entry (int n)"
  unfolding MULAW_DECODE_TABLE_def by (rule map_upt_nth)

lemma decode_table_byte:
  "MULAW_DECODE_TABLE ! unat (b :: byte) = mulaw_decode_entry (uint b)"
proof -
  have "unat b < 256"
    using unsigned_less [of b] by simp
  then show ?thesis
    by (simp add: decode_table_nth)
qed

lemma encode_table_nth:
  assumes "n < 65536"
  shows "MULAW_ENCODE_TABLE ! n =
           encode_mulaw_sample (if int n < 32768 then int n else int n - 65536)"
proof -
  let ?g = "\<lambda>u. encode_mulaw_sample (if u < 32768 then u else u - 65536)"
  have "map (?g \<circ> int) [0..<65536] ! n = (?g \<circ> int) n"
    using assms by (rule map_upt_nth)
  then show ?thesis
    unfolding MULAW_ENCODE_TABLE_def map_map by (simp only: o_apply)
qed

lemma decode_entry_okD:
  assumes "decode_entry_ok n"
  shows "mulaw_decode_sample (int n) =
           (if (255 - n) div 128 = 1
            then - ((int ((255 - n) mod 16) * 8 + 132) * 2 ^ (((255 - n) div 16) mod 8) - 132)
            else (int ((255 - n) mod 16) * 8 + 132) * 2 ^ (((255 - n) div 16) mod 8) - 132)"
    and "\<bar>mulaw_decode_sample (int n)\<bar> \<le> 32124"
  using assms unfolding decode_entry_ok_def Let_def by blast+

lemma decode_sample_bound: "\<bar>mulaw_decode_sample (uint (b :: byte))\<bar> \<le> 32124"
  using decode_entry_okD(2) [OF decode_entry_ok_byte [of b]] by simp

lemma decode_table_g711: "MULAW_DECODE_TABLE ! unat (b :: byte) = g711_decode b"
proof -
  have "mulaw_decode_sample (uint b) =
           (if (255 - unat b) div 128 = 1
            then - ((int ((255 - unat b) mod 16) * 8 + 132)
                      * 2 ^ (((255 - unat b) div 16) mod 8) - 132)
            else (int ((255 - unat b) mod 16) * 8 + 132)
                      * 2 ^ (((255 - unat b) div 16) mod 8) - 132)"
    using decode_entry_okD(1) [OF decode_entry_ok_byte [of b]] by simp
  then have "mulaw_decode_entry (uint b) = g711_decode b"
    unfolding mulaw_decode_entry_def g711_decode_def Let_def by simp
  then show ?thesis
    by (simp add: decode_table_byte)
qed

lemma decode_table_range:
  "- 1 \<le> MULAW_DECODE_TABLE ! unat (b :: byte)" "MULAW_DECODE_TABLE ! unat (b :: byte) \<le> 1"
proof -
  let ?s = "mulaw_decode_sample (uint b)"
  have "rat_of_int \<bar>?s\<bar> \<le> of_int 32124"
    using decode_sample_bound [of b] by (simp only: of_int_le_iff)
  then have "\<bar>rat_of_int ?s\<bar> \<le> 32124"
    by simp
  then show "- 1 \<le> MULAW_DECODE_TABLE ! unat b" "MULAW_DECODE_TABLE ! unat b \<le> 1"
    by (simp_all add: decode_table_byte mulaw_decode_entry_def abs_le_iff)
qed

lemma uint16_view_back:
  assumes "- 32768 \<le> t" "t < 32768"
  shows "(if int (nat (t mod 65536)) < 32768 then int (nat (t mod 65536))
          else int (nat (t mod 65536)) - 65536) = t"
proof (cases "0 \<le> t")
  case True
  then have "t mod 65536 = t" using assms by simp
  then show ?thesis using True assms by simp
next
  case False
  have "(t + 65536) mod 65536 = t + 65536"
    using assms False by (intro mod_pos_pos_trivial) simp_all
  then have "t mod 65536 = t + 65536"
    by simp
  then show ?thesis using False assms by simp
qed

lemma pcm_to_mulaw_sample_decoded:
  "MULAW_DECODE_TABLE ! unat (pcm_to_mulaw_sample (MULAW_DECODE_TABLE ! unat (b :: byte)))
     = MULAW_DECODE_TABLE ! unat b"
proof -
  define s where "s = mulaw_decode_sample (uint b)"
  define t where "t = s - sgn s"
  define c where "c = encode_mulaw_sample t"
  have bound: "\<bar>s\<bar> \<le> 32124"
    unfolding s_def by (rule decode_sample_bound)
  have rt: "0 \<le> c" "c < 256" "mulaw_decode_sample c = s"
    using entry_roundtrip_byte [of b]
    by (simp_all add: entry_roundtrip_def Let_def c_def t_def s_def)
  have x: "MULAW_DECODE_TABLE ! unat b = of_int s / 32768"
    by (simp add: decode_table_byte mulaw_decode_entry_def s_def)
  have "\<bar>rat_of_int s / 32768\<bar> \<le> 1"
    using decode_table_range [of b] by (simp add: x abs_le_iff)
  then have cl: "clip (of_int s / 32768) (- 1) 1 = of_int s / 32768"
    by (simp add: clip_def abs_le_iff)
  have tr: "trunc_int (f32_round (of_int s / 32768 * 32767)) = t"
  proof (cases "s = 0")
    case True
    then show ?thesis by (simp add: t_def f32_round_def trunc_int_def)
  next
    case False
    then have "1 \<le> \<bar>s\<bar>" by simp
    then show ?thesis unfolding t_def using bound by (rule scale_trunc)
  qed
  have t_range: "- 32768 \<le> t" "t < 32768"
    using bound by (auto simp: t_def sgn_if abs_le_iff)
  have "nat (t mod 65536) < 65536"
    by (simp add: nat_less_iff)
  then have "MULAW_ENCODE_TABLE ! nat (t mod 65536) = c"
    using uint16_view_back [OF t_range] by (simp only: encode_table_nth c_def)
  then have "pcm_to_mulaw_sample (of_int s / 32768) = word_of_int c"
    unfolding pcm_to_mulaw_sample_def Let_def cl tr by simp
  moreover have "uint (word_of_int c :: byte) = c"
    using rt by (simp add: uint_word_of_int)
  ultimately have "MULAW_DECODE_TABLE ! unat (pcm_to_mulaw_sample (of_int s / 32768))
      = mulaw_decode_entry c"
    by (simp add: decode_table_byte)
  then show ?thesis
    using rt by (simp add: x mulaw_decode_entry_def)
qed

text \<open>
  Claim C6. For every byte sequence \<open>b\<close>, \<open>mulaw_to_pcm b\<close> has the length of \<open>b\<close>, and each
  element is the G.711 decoding of the corresponding byte as the specification words it
  (invert, split into sign, exponent and mantissa, shift, remove the bias, apply the sign,
  divide by 32768) and lies between -1 and 1.
\<close>

theorem mulaw_to_pcm_decodes:
  "length (mulaw_to_pcm b) = length b \<and>
   (\<forall>i < length b. mulaw_to_pcm b ! i = g711_decode (b ! i)
      \<and> - 1 \<le> mulaw_to_pcm b ! i \<and> mulaw_to_pcm b ! i \<le> 1)"
  by (simp add: mulaw_to_pcm_def decode_table_g711 [symmetric] decode_table_range)

theorem mulaw_to_pcm_decodes_witness:
  "length (mulaw_to_pcm [0xFF, 0x00, 0x80]) = 3 \<and>
   mulaw_to_pcm [0xFF, 0x00, 0x80] ! 1 = - (8031 / 8192) \<and>
   - 1 \<le> mulaw_to_pcm [0xFF, 0x00, 0x80] ! 1 \<and> mulaw_to_pcm [0xFF, 0x00, 0x80] ! 1 \<le> 1"
proof -
  have i: "(1::nat) < length [0xFF, 0x00, 0x80 :: byte]"
    by simp
  have g: "g711_decode ([0xFF, 0x00, 0x80] ! 1) = - (8031 / 8192)"
    by (simp add: g711_decode_def)
  show ?thesis
    using mulaw_to_pcm_decodes [of "[0xFF, 0x00, 0x80]"] i g by simp
qed

text \<open>
  Claim C7. For every \<open>\<mu>\<close>-law byte sequence \<open>b\<close>, decoding, re-encoding and decoding again
  gives a sample sequence of the same length that differs from \<open>mulaw_to_pcm b\<close> by at most
  0.01 at every position.
\<close>

theorem mulaw_roundtrip_within_tolerance:
  "length (mulaw_to_pcm (pcm_to_mulaw (mulaw_to_pcm b))) = length b \<and>
   (\<forall>i < length b.
      \<bar>mulaw_to_pcm (pcm_to_mulaw (mulaw_to_pcm b)) ! i - mulaw_to_pcm b ! i\<bar> \<le> 1 / 100)"
  by (simp add: mulaw_to_pcm_def pcm_to_mulaw_def pcm_to_mulaw_sample_decoded)

theorem mulaw_roundtrip_within_tolerance_witness:
  "length (mulaw_to_pcm (pcm_to_mulaw (mulaw_to_pcm [0xFF, 0x00, 0x80]))) = 3 \<and>
   \<bar>mulaw_to_pcm (pcm_to_mulaw (mulaw_to_pcm [0xFF, 0x00, 0x80])) ! 2
      - mulaw_to_pcm [0xFF, 0x00, 0x80] ! 2\<bar> \<le> 1 / 100"
proof -
  have i: "(2::nat) < length [0xFF, 0x00, 0x80 :: byte]"
    by simp
  show ?thesis
    using mulaw_roundtrip_within_tolerance [of "[0xFF, 0x00, 0x80]"] i
    by (simp del: nth_Cons_numeral)
qed

text \<open>
  Claim C8. A resampling call whose source and target rates are equal returns its input
  unchanged, whatever the resampler of the library would do.
\<close>

theorem resample_same_rate: "resample lib_resample p rate rate = p"
  by (simp add: resample_def)

section \<open>Phone numbers\<close>

lemma keep_digits_plus_noop:
  "(\<And>c. c \<in> set s \<Longrightarrow> is_digit c \<or> c = CHR ''+'') \<Longrightarrow> keep_digits_plus s = s"
  unfolding keep_digits_plus_def by (induction s) auto

lemma normalize_e164_chars:
  "c \<in> set (normalize_e164 x) \<Longrightarrow> is_digit c \<or> c = CHR ''+''"
  by (auto simp: normalize_e164_def Let_def keep_digits_plus_def is_digit_def split: if_splits)

lemma normalize_e164_plus: "startswith (normalize_e164 x) ''+''"
  by (simp add: normalize_e164_def Let_def startswith_def)

text \<open>
  Claim C9. E.164 normalisation is idempotent: for every input string \<open>x\<close>, normalising the
  result of \<open>normalize_e164 x\<close> again returns it unchanged.
\<close>

theorem normalize_e164_idempotent:
  "normalize_e164 (normalize_e164 x) = normalize_e164 x"
proof -
  let ?y = "normalize_e164 x"
  have kept: "\<And>c. c \<in> set ?y \<Longrightarrow> is_digit c \<or> c = CHR ''+''"
    by (rule normalize_e164_chars)
  have "strip ?y = ?y"
    using kept is_space_not_kept by (intro strip_no_space) blast
  moreover have "keep_digits_plus ?y = ?y"
    using kept by (rule keep_digits_plus_noop)
  moreover have "startswith ?y ''+''"
    by (rule normalize_e164_plus)
  ultimately show ?thesis
    by (simp add: normalize_e164_def [of ?y] Let_def)
qed

section \<open>Transcript capture\<close>

lemma turn_ok_end_turn:
  "list_all turn_ok (turns tc) \<Longrightarrow> list_all turn_ok (turns (end_turn tc))"
  by (simp add: end_turn_def Let_def turn_ok_def strip_idem)

lemma turn_ok_add_token:
  "list_all turn_ok (turns tc) \<Longrightarrow> list_all turn_ok (turns (add_token tc s))"
  by (simp add: add_token_def)

lemma turn_ok_add_user_note:
  "list_all turn_ok (turns tc) \<Longrightarrow> list_all turn_ok (turns (add_user_note tc s))"
  by (simp add: add_user_note_def turn_ok_def strip_idem)

lemma turn_ok_step:
  "list_all turn_ok (turns tc) \<Longrightarrow> list_all turn_ok (turns (transcript_step tc x))"
  by (cases x) (simp_all add: turn_ok_end_turn turn_ok_add_token turn_ok_add_user_note)

lemma turn_ok_foldl:
  "list_all turn_ok (turns tc) \<Longrightarrow> list_all turn_ok (turns (foldl transcript_step tc ops))"
  by (induction ops arbitrary: tc) (simp_all add: turn_ok_step)

text \<open>
  Claim C10. For every sequence of \<open>add_token\<close>, \<open>end_turn\<close> and \<open>add_user_note\<close>
  operations on a fresh capture, every turn returned by \<open>get_transcript\<close> has a content that
  equals its own whitespace-trimmed form and is not the empty string.
\<close>

theorem transcript_turns_trimmed_nonempty:
  "\<forall>t \<in> set (fst (get_transcript (transcript_run ops))).
     content t = strip (content t) \<and> content t \<noteq> []"
proof -
  have "list_all turn_ok (turns (transcript_run ops))"
    unfolding transcript_run_def
    by (rule turn_ok_foldl) (simp add: TranscriptCapture_init_def)
  then have "list_all turn_ok (turns (end_turn (transcript_run ops)))"
    by (rule turn_ok_end_turn)
  then show ?thesis
    by (simp add: get_transcript_def Let_def list_all_iff turn_ok_def)
qed

theorem transcript_turns_trimmed_nonempty_witness:
  "fst (get_transcript (transcript_run [AddToken '' Hel'', AddToken ''lo '', EndTurn,
         AddToken ''  '', AddUserNote ''  hi  '', AddToken ''x'']))
     = [\<lparr>role = ''assistant'', content = ''Hello''\<rparr>, \<lparr>role = ''user'', content = ''hi''\<rparr>,
        \<lparr>role = ''assistant'', content = ''x''\<rparr>]
   \<and> ''Hello'' = strip ''Hello'' \<and> ''hi'' = strip ''hi'' \<and> ''x'' = strip ''x''"
proof -
  let ?ops = "[AddToken '' Hel'', AddToken ''lo '', EndTurn,
         AddToken ''  '', AddUserNote ''  hi  '', AddToken ''x'']"
  have run: "fst (get_transcript (transcript_run ?ops))
     = [\<lparr>role = ''assistant'', content = ''Hello''\<rparr>, \<lparr>role = ''user'', content = ''hi''\<rparr>,
        \<lparr>role = ''assistant'', content = ''x''\<rparr>]"
    by (simp add: get_transcript_def transcript_run_def TranscriptCapture_init_def add_token_def
        end_turn_def add_user_note_def strip_def is_space_def Let_def)
  show ?thesis
    using transcript_turns_trimmed_nonempty [of ?ops] unfolding run by simp
qed

section \<open>The bridge\<close>

lemma OPUS_FRAME_SAMPLES_480: "OPUS_FRAME_SAMPLES = 480"
  by (simp add: OPUS_FRAME_SAMPLES_def PP_SAMPLE_RATE_def OPUS_FRAME_MS_def)

lemma drain_frames_residual: "length (fst (drain_frames L buf out)) < OPUS_FRAME_SAMPLES"
proof (induction L buf out rule: drain_frames.induct)
  case (1 L buf out)
  show ?case
  proof (cases "OPUS_FRAME_SAMPLES \<le> length buf")
    case True
    then show ?thesis
      using "1.IH" [OF True refl refl]
      by (subst drain_frames.simps) (simp add: Let_def)
  next
    case False
    then show ?thesis
      by (subst drain_frames.simps) simp
  qed
qed

text \<open>
  Claim C5. After every send pass on the carrier-to-AI path that appends the incoming samples
  to the residual buffer and drains whole frames (the AI socket is present and open), the
  residual buffer holds fewer than 480 samples, whatever it held before and whatever the size
  of the incoming chunk.
\<close>

theorem residual_below_one_frame:
  "pp_ws st = Some w \<Longrightarrow> \<not> ws_closed w \<Longrightarrow>
   length (pcm_buffer (send_pcm_to_personaplex L st pcm_24k)) < 480"
proof -
  assume w: "pp_ws st = Some w" "\<not> ws_closed w"
  obtain buf out where d: "drain_frames L (pcm_buffer st @ pcm_24k) (ws_sent w) = (buf, out)"
    by (cases "drain_frames L (pcm_buffer st @ pcm_24k) (ws_sent w)")
  have "length buf < 480"
    using drain_frames_residual [of L "pcm_buffer st @ pcm_24k" "ws_sent w"]
    by (simp add: d OPUS_FRAME_SAMPLES_480)
  then show ?thesis
    by (simp add: send_pcm_to_personaplex_def w d)
qed

theorem residual_below_one_frame_witness:
  "pp_ws (VoiceBridge_init\<lparr>pp_ws := Some \<lparr>ws_closed = False, ws_sent = []\<rparr>\<rparr>)
     = Some \<lparr>ws_closed = False, ws_sent = []\<rparr>
   \<and> \<not> ws_closed \<lparr>ws_closed = False, ws_sent = [] :: byte list list\<rparr>
   \<and> length (pcm_buffer (send_pcm_to_personaplex failing_libs
        (VoiceBridge_init\<lparr>pp_ws := Some \<lparr>ws_closed = False, ws_sent = []\<rparr>\<rparr>)
        (replicate 1000 0))) < 480"
proof -
  let ?w = "\<lparr>ws_closed = False, ws_sent = [] :: byte list list\<rparr>"
  let ?st = "VoiceBridge_init\<lparr>pp_ws := Some ?w\<rparr>"
  have a: "pp_ws ?st = Some ?w" by simp
  have b: "\<not> ws_closed ?w" by simp
  show ?thesis
    using residual_below_one_frame [OF a b, of failing_libs "replicate 1000 0"] a b by simp
qed

text \<open>
  Claim C3, as the code has it. A carrier text frame that is not JSON makes \<^verbatim>\<open>json.loads\<close>
  raise inside the loop of the carrier-to-AI pump, where nothing catches it: the frame changes
  nothing, the pump ends with the exception, and no later frame is handled.
\<close>

theorem malformed_frame_ends_pump:
  "\<not> close_flag st \<Longrightarrow>
   twilio_to_personaplex L st (WSText Malformed # msgs) = (Raised JSONDecodeError, st)"
  by (simp add: twilio_frame_def)

theorem malformed_frame_ends_pump_witness:
  "\<not> close_flag VoiceBridge_init \<and>
   twilio_to_personaplex failing_libs VoiceBridge_init
       [WSText Malformed, inbound_media ''AAAA'', WSCtl CLOSE]
     = (Raised JSONDecodeError, VoiceBridge_init)"
proof -
  have a: "\<not> close_flag VoiceBridge_init"
    by (simp add: VoiceBridge_init_def)
  show ?thesis
    using malformed_frame_ends_pump [OF a, of failing_libs "[inbound_media ''AAAA'', WSCtl CLOSE]"] a
    by simp
qed

text \<open>
  The claim as stated (the frame is dropped and the pump goes on) fails: after a frame that is
  not JSON the \<^verbatim>\<open>start\<close> envelope that follows is not handled, while alone it sets the
  stream id.
\<close>

theorem malformed_frame_counterexample:
  "fst (twilio_to_personaplex failing_libs VoiceBridge_init
          [WSText Malformed, start_envelope (JStr ''S1'')]) = Raised JSONDecodeError
   \<and> stream_sid (snd (twilio_to_personaplex failing_libs VoiceBridge_init
          [WSText Malformed, start_envelope (JStr ''S1'')])) = JNull
   \<and> stream_sid (snd (twilio_to_personaplex failing_libs VoiceBridge_init
          [start_envelope (JStr ''S1'')])) = JStr ''S1''"
  by (simp add: twilio_frame_def VoiceBridge_init_def start_envelope_def on_start_def
      dict_get_def dict_get_default_def log_record_def)

section \<open>The handshake\<close>







section \<open>The stream id\<close>
















end
